theory Spec2Isabelle
  imports Complex_Main
begin

section \<open>Numbers\<close>

text \<open>
  The detector of \<^verbatim>\<open>src/rodionov.py\<close> computes on numpy double-precision numbers.
  They are modelled as exact real numbers extended with the three special values that
  numpy produces instead of raising: the two infinities and NaN (\<^verbatim>\<open>np.mean\<close> of an
  empty array, \<^verbatim>\<open>0/0\<close>, \<^verbatim>\<open>inf - inf\<close>). Rounding and the sign of zero are not
  modelled. The input series itself holds ordinary real numbers.
\<close>

datatype npfloat = Fin real | PInf | NInf | NaN

definition inf_of_sign :: "real \<Rightarrow> npfloat" where
  "inf_of_sign s = (if s = 0 then NaN else if 0 < s then PInf else NInf)"

fun fl_neg :: "npfloat \<Rightarrow> npfloat" where
  "fl_neg (Fin a) = Fin (- a)"
| "fl_neg PInf = NInf"
| "fl_neg NInf = PInf"
| "fl_neg NaN = NaN"

fun fl_add :: "npfloat \<Rightarrow> npfloat \<Rightarrow> npfloat" where
  "fl_add (Fin a) (Fin b) = Fin (a + b)"
| "fl_add NaN y = NaN"
| "fl_add x NaN = NaN"
| "fl_add PInf NInf = NaN"
| "fl_add NInf PInf = NaN"
| "fl_add PInf y = PInf"
| "fl_add NInf y = NInf"
| "fl_add x PInf = PInf"
| "fl_add x NInf = NInf"

definition fl_sub :: "npfloat \<Rightarrow> npfloat \<Rightarrow> npfloat" where
  "fl_sub x y = fl_add x (fl_neg y)"

fun fl_mul :: "npfloat \<Rightarrow> npfloat \<Rightarrow> npfloat" where
  "fl_mul (Fin a) (Fin b) = Fin (a * b)"
| "fl_mul NaN y = NaN"
| "fl_mul x NaN = NaN"
| "fl_mul PInf (Fin b) = inf_of_sign b"
| "fl_mul NInf (Fin b) = inf_of_sign (- b)"
| "fl_mul (Fin a) PInf = inf_of_sign a"
| "fl_mul (Fin a) NInf = inf_of_sign (- a)"
| "fl_mul PInf PInf = PInf"
| "fl_mul PInf NInf = NInf"
| "fl_mul NInf PInf = NInf"
| "fl_mul NInf NInf = PInf"

fun fl_div :: "npfloat \<Rightarrow> npfloat \<Rightarrow> npfloat" where
  "fl_div (Fin a) (Fin b) = (if b = 0 then inf_of_sign a else Fin (a / b))"
| "fl_div NaN y = NaN"
| "fl_div x NaN = NaN"
| "fl_div PInf (Fin b) = (if 0 \<le> b then PInf else NInf)"
| "fl_div NInf (Fin b) = (if 0 \<le> b then NInf else PInf)"
| "fl_div (Fin a) PInf = Fin 0"
| "fl_div (Fin a) NInf = Fin 0"
| "fl_div PInf PInf = NaN"
| "fl_div PInf NInf = NaN"
| "fl_div NInf PInf = NaN"
| "fl_div NInf NInf = NaN"

fun fl_sqrt :: "npfloat \<Rightarrow> npfloat" where
  "fl_sqrt (Fin a) = (if a < 0 then NaN else Fin (sqrt a))"
| "fl_sqrt PInf = PInf"
| "fl_sqrt NInf = NaN"
| "fl_sqrt NaN = NaN"

fun fl_abs :: "npfloat \<Rightarrow> npfloat" where
  "fl_abs (Fin a) = Fin \<bar>a\<bar>"
| "fl_abs PInf = PInf"
| "fl_abs NInf = PInf"
| "fl_abs NaN = NaN"

text \<open>Comparisons: every comparison with NaN is false.\<close>

fun fl_lt :: "npfloat \<Rightarrow> npfloat \<Rightarrow> bool" where
  "fl_lt (Fin a) (Fin b) = (a < b)"
| "fl_lt NaN y = False"
| "fl_lt x NaN = False"
| "fl_lt x NInf = False"
| "fl_lt PInf y = False"
| "fl_lt NInf y = True"
| "fl_lt x PInf = True"

definition fl_gt :: "npfloat \<Rightarrow> npfloat \<Rightarrow> bool" where
  "fl_gt x y = fl_lt y x"

text \<open>
  \<^verbatim>\<open>np.mean\<close>: the sum divided by the number of elements; NaN (with a warning, no
  exception) on an empty array. \<^verbatim>\<open>np.var\<close> with its default \<^verbatim>\<open>ddof=0\<close>: the mean of
  the squared deviations from the mean.
  Both are exact here: the mean of equal values is that value and their variance is 0,
  whereas numpy's rounded mean of eleven values 1.9 is 1.8999999999999995 and the variance
  of such a window about 2e-31. A statement about a constant series that is to hold of
  the code therefore takes the computed mean as a hypothesis.
\<close>

definition np_sum :: "npfloat list \<Rightarrow> npfloat" where
  "np_sum xs = foldr fl_add xs (Fin 0)"

definition np_mean :: "npfloat list \<Rightarrow> npfloat" where
  "np_mean xs = (if xs = [] then NaN else fl_div (np_sum xs) (Fin (real (length xs))))"

definition np_var :: "npfloat list \<Rightarrow> npfloat" where
  "np_var xs = (let m = np_mean xs in np_mean (map (\<lambda>x. fl_mul (fl_sub x m) (fl_sub x m)) xs))"

text \<open>Python's \<^verbatim>\<open>xs[a:b]\<close> for non-negative \<^verbatim>\<open>a\<close> and \<^verbatim>\<open>b\<close>: clipped at the end.\<close>

definition slice :: "'a list \<Rightarrow> nat \<Rightarrow> nat \<Rightarrow> 'a list" where
  "slice xs a b = take (b - a) (drop a xs)"

section \<open>The detector\<close>

text \<open>
  \<^verbatim>\<open>rodionov_regimes(data, l, p)\<close>. The series \<open>data\<close> is a list of real numbers
  (the callers pass a flat numpy array without missing values), the regime length
  \<open>l\<close> a natural number, zero included, and \<open>p\<close> a real number.
\<close>

subsection \<open>Step 2: the thresholds\<close>

text \<open>
  \<^verbatim>\<open>t_test.ppf\<close> (the inverse CDF of Student's t, from scipy) is an external primitive:
  the model takes it as the parameter \<open>ppf\<close>.
\<close>

definition t_stat :: "(real \<Rightarrow> int \<Rightarrow> npfloat) \<Rightarrow> nat \<Rightarrow> real \<Rightarrow> npfloat" where
  "t_stat ppf l p = fl_abs (ppf p (2 * int l - 2))"

definition avg_var :: "real list \<Rightarrow> nat \<Rightarrow> npfloat" where
  "avg_var data l =
     np_mean (map (\<lambda>i. np_var (map Fin (slice data i (i + l)))) [0 ..< length data - l])"

definition diff :: "npfloat \<Rightarrow> npfloat \<Rightarrow> nat \<Rightarrow> npfloat" where
  "diff ts av l = fl_mul ts (fl_sqrt (fl_div (fl_mul (Fin 2) av) (Fin (real l))))"

subsection \<open>Steps 3 to 7: the scan\<close>

record regime_state =
  r1 :: npfloat
  r1_lower :: npfloat
  r1_upper :: npfloat
  rsi :: "npfloat list"
  regime_shift_indices :: "nat list"

text \<open>
  Step 5 and 6, the \<^verbatim>\<open>for k in range(j + 1, min(j + l, n))\<close> loop with its
  \<^verbatim>\<open>break\<close>: recursion over the list of the values of \<open>k\<close>.
\<close>

fun rsi_loop ::
  "real list \<Rightarrow> nat \<Rightarrow> npfloat \<Rightarrow> npfloat \<Rightarrow> npfloat \<Rightarrow> nat \<Rightarrow> nat list \<Rightarrow> npfloat list
     \<Rightarrow> npfloat list" where
  "rsi_loop data l av r test_r2 j [] rs = rs"
| "rsi_loop data l av r test_r2 j (k # ks) rs =
     (let rs1 =
        (if fl_gt (Fin (data ! j)) r
         then rs[j := fl_add (rs ! j)
                (fl_div (fl_sub (Fin (data ! k)) test_r2) (fl_mul av (Fin (real l))))]
         else if fl_lt (Fin (data ! j)) r
         then rs[j := fl_add (rs ! j)
                (fl_div (fl_sub test_r2 (Fin (data ! k))) (fl_mul av (Fin (real l))))]
         else rs)
      in if fl_lt (rs1 ! j) (Fin 0) then rs1[j := Fin 0]
         else rsi_loop data l av r test_r2 j ks rs1)"

text \<open>The choice of \<^verbatim>\<open>test_r2\<close> (line 49).\<close>

definition test_r2_of :: "regime_state \<Rightarrow> real \<Rightarrow> npfloat" where
  "test_r2_of s x = (if fl_lt (Fin x) (r1_lower s) then r1_lower s else r1_upper s)"

text \<open>Step 7, the confirmation (lines 64 to 69), on the trace \<open>rs\<close> left by the loop.\<close>

definition confirm ::
  "real list \<Rightarrow> nat \<Rightarrow> npfloat \<Rightarrow> nat \<Rightarrow> npfloat list \<Rightarrow> regime_state \<Rightarrow> regime_state" where
  "confirm data l d j rs s =
     (if fl_gt (rs ! j) (Fin 0)
      then (let r2 = np_mean (map Fin (slice data j (min (j + l) (length data))))
            in s\<lparr>r1 := r2, r1_lower := fl_sub r2 d, r1_upper := fl_add r2 d, rsi := rs,
                 regime_shift_indices := regime_shift_indices s @ [j]\<rparr>)
      else s\<lparr>rsi := rs\<rparr>)"

text \<open>The body of the \<^verbatim>\<open>if\<close> branch of the scan, for a candidate at \<open>j\<close> (lines 46 to 69).\<close>

definition candidate ::
  "real list \<Rightarrow> nat \<Rightarrow> npfloat \<Rightarrow> npfloat \<Rightarrow> nat \<Rightarrow> regime_state \<Rightarrow> regime_state" where
  "candidate data l av d j s =
     confirm data l d j
       (rsi_loop data l av (r1 s) (test_r2_of s (data ! j)) j
          [j + 1 ..< min (j + l) (length data)] (rsi s)) s"

text \<open>The \<^verbatim>\<open>else\<close> branch (line 74): only \<^verbatim>\<open>r1\<close> is assigned.\<close>

definition smooth :: "real list \<Rightarrow> nat \<Rightarrow> nat \<Rightarrow> regime_state \<Rightarrow> regime_state" where
  "smooth data l i s =
     s\<lparr>r1 := fl_div (fl_add (fl_mul (Fin (real l - 1)) (r1 s)) (Fin (data ! i))) (Fin (real l))\<rparr>"

definition out_of_range :: "regime_state \<Rightarrow> real \<Rightarrow> bool" where
  "out_of_range s x \<longleftrightarrow> fl_lt (Fin x) (r1_lower s) \<or> fl_gt (Fin x) (r1_upper s)"

text \<open>
  The \<^verbatim>\<open>while i < n\<close> loop. After a candidate at \<open>j = i\<close> the code sets
  \<^verbatim>\<open>i = j + 1\<close> and then runs the common \<^verbatim>\<open>i += 1\<close>.
\<close>

function scan ::
  "real list \<Rightarrow> nat \<Rightarrow> npfloat \<Rightarrow> npfloat \<Rightarrow> nat \<Rightarrow> regime_state \<Rightarrow> regime_state" where
  "scan data l av d i s =
     (if i < length data
      then (if out_of_range s (data ! i)
            then scan data l av d (i + 1 + 1) (candidate data l av d i s)
            else scan data l av d (i + 1) (smooth data l i s))
      else s)"
  by pat_completeness auto
termination
  by (relation "measure (\<lambda>(data, l, av, d, i, s). length data - i)") auto

definition init_state :: "real list \<Rightarrow> nat \<Rightarrow> npfloat \<Rightarrow> regime_state" where
  "init_state data l d =
     (let r = np_mean (map Fin (take l data))
      in \<lparr>r1 = r, r1_lower = fl_sub r d, r1_upper = fl_add r d,
          rsi = replicate (length data) (Fin 0), regime_shift_indices = []\<rparr>)"

text \<open>The state when the \<^verbatim>\<open>while\<close> loop ends.\<close>

definition final_state :: "(real \<Rightarrow> int \<Rightarrow> npfloat) \<Rightarrow> real list \<Rightarrow> nat \<Rightarrow> real \<Rightarrow> regime_state" where
  "final_state ppf data l p =
     (let av = avg_var data l;
          d = diff (t_stat ppf l p) av l
      in scan data l av d (l + 1) (init_state data l d))"

definition rodionov_regimes ::
  "(real \<Rightarrow> int \<Rightarrow> npfloat) \<Rightarrow> real list \<Rightarrow> nat \<Rightarrow> real \<Rightarrow> nat list \<times> npfloat list" where
  "rodionov_regimes ppf data l p =
     (let s = final_state ppf data l p in (regime_shift_indices s, rsi s))"

text \<open>
  The function has no \<^verbatim>\<open>raise\<close>, and no operation in it raises on a numeric array: every
  call returns. \<open>detect\<close> is the outcome of a call, with the two failures the
  specification names.
\<close>

datatype error = InvalidParameter | DegenerateInput

definition detect ::
  "(real \<Rightarrow> int \<Rightarrow> npfloat) \<Rightarrow> real list \<Rightarrow> nat \<Rightarrow> real \<Rightarrow> error + nat list \<times> npfloat list" where
  "detect ppf data l p = Inr (rodionov_regimes ppf data l p)"

section \<open>The notions of the specification\<close>

text \<open>
  The specification describes the thresholds by index ranges over the series, and the
  regime shift index by the running sum of its increments. These definitions follow the
  specification's words; the theorems below compare them with the definitions above,
  which follow the code.
\<close>

text \<open>
  The mean and the population variance (divisor \<open>l\<close>) of the window of length \<open>l\<close> that
  starts at \<open>i\<close>, and the mean of these variances over the start offsets \<open>0, \<dots>, n - l - 1\<close>.
\<close>

definition window_mean :: "real list \<Rightarrow> nat \<Rightarrow> nat \<Rightarrow> real" where
  "window_mean data l i = (\<Sum>k = i ..< i + l. data ! k) / real l"

definition window_variance :: "real list \<Rightarrow> nat \<Rightarrow> nat \<Rightarrow> real" where
  "window_variance data l i =
     (\<Sum>k = i ..< i + l. (data ! k - window_mean data l i)\<^sup>2) / real l"

definition mean_window_variance :: "real list \<Rightarrow> nat \<Rightarrow> real" where
  "mean_window_variance data l =
     (\<Sum>i = 0 ..< length data - l. window_variance data l i) / real (length data - l)"

text \<open>
  The increment that \<open>data[k]\<close> contributes to \<open>rsi[j]\<close>, the running sum after the
  values \<open>ks\<close> of \<open>k\<close>, and the accumulated index: 0 as soon as a running sum is below
  zero, the whole sum otherwise.
\<close>

definition rsi_increment ::
  "real list \<Rightarrow> nat \<Rightarrow> npfloat \<Rightarrow> npfloat \<Rightarrow> npfloat \<Rightarrow> nat \<Rightarrow> nat \<Rightarrow> npfloat" where
  "rsi_increment data l av r test_r2 j k =
     (if fl_gt (Fin (data ! j)) r
      then fl_div (fl_sub (Fin (data ! k)) test_r2) (fl_mul av (Fin (real l)))
      else if fl_lt (Fin (data ! j)) r
      then fl_div (fl_sub test_r2 (Fin (data ! k))) (fl_mul av (Fin (real l)))
      else Fin 0)"

definition rsi_partial_sum ::
  "real list \<Rightarrow> nat \<Rightarrow> npfloat \<Rightarrow> npfloat \<Rightarrow> npfloat \<Rightarrow> nat \<Rightarrow> npfloat \<Rightarrow> nat list \<Rightarrow> npfloat" where
  "rsi_partial_sum data l av r test_r2 j x0 ks =
     foldl fl_add x0 (map (rsi_increment data l av r test_r2 j) ks)"

definition rsi_accumulated ::
  "real list \<Rightarrow> nat \<Rightarrow> npfloat \<Rightarrow> npfloat \<Rightarrow> npfloat \<Rightarrow> nat \<Rightarrow> npfloat \<Rightarrow> nat list \<Rightarrow> npfloat" where
  "rsi_accumulated data l av r test_r2 j x0 ks =
     (if \<exists>m \<in> {1 .. length ks}.
           fl_lt (rsi_partial_sum data l av r test_r2 j x0 (take m ks)) (Fin 0)
      then Fin 0
      else rsi_partial_sum data l av r test_r2 j x0 ks)"

section \<open>Invariants of the scan\<close>

text \<open>
  What the scan keeps about positions, whatever the numbers are: the trace has the
  length of the series, it is 0 from the scan position on and at the last position, and
  the shift indices increase, lie below the scan position and at least two below the end.
\<close>

definition index_inv :: "nat \<Rightarrow> real list \<Rightarrow> nat \<Rightarrow> regime_state \<Rightarrow> bool" where
  "index_inv lo data i s \<longleftrightarrow>
     lo \<le> i \<and> length (rsi s) = length data \<and>
     (\<forall>idx. i \<le> idx \<and> idx < length data \<longrightarrow> rsi s ! idx = Fin 0) \<and>
     (data \<noteq> [] \<longrightarrow> rsi s ! (length data - 1) = Fin 0) \<and>
     sorted_wrt (<) (regime_shift_indices s) \<and>
     (\<forall>x \<in> set (regime_shift_indices s). lo \<le> x \<and> x < i \<and> x + 2 \<le> length data)"

text \<open>
  What the scan keeps about values, when the thresholds are finite: the regime mean and
  its bounds are finite, and every entry of the trace is a non-negative number that is
  positive exactly at the shift indices.
\<close>

definition value_inv :: "real list \<Rightarrow> nat \<Rightarrow> regime_state \<Rightarrow> bool" where
  "value_inv data i s \<longleftrightarrow>
     length (rsi s) = length data \<and>
     (\<exists>r. r1 s = Fin r) \<and> (\<exists>lo. r1_lower s = Fin lo) \<and> (\<exists>up. r1_upper s = Fin up) \<and>
     (\<forall>idx < length data. \<exists>x. rsi s ! idx = Fin x \<and> 0 \<le> x \<and>
        (0 < x \<longleftrightarrow> idx \<in> set (regime_shift_indices s))) \<and>
     (\<forall>idx. i \<le> idx \<and> idx < length data \<longrightarrow> rsi s ! idx = Fin 0) \<and>
     (\<forall>x \<in> set (regime_shift_indices s). x < i)"

text \<open>
  The values a threshold can take: a product of an absolute value and a square root.
\<close>

definition nonneg_or_nan :: "npfloat \<Rightarrow> bool" where
  "nonneg_or_nan x \<longleftrightarrow> x = NaN \<or> x = PInf \<or> (\<exists>a. 0 \<le> a \<and> x = Fin a)"

section \<open>Example inputs\<close>

text \<open>
  A quantile function that returns \<open>q\<close> whatever the probability and the degrees of
  freedom, to stand for scipy's on the examples; and a series with a one-point spike
  followed by a reversion.
\<close>

definition const_ppf :: "real \<Rightarrow> real \<Rightarrow> int \<Rightarrow> npfloat" where
  "const_ppf q p df = Fin q"

definition spike_series :: "real list" where
  "spike_series = [0, 0, 0, 0, 5, - 1, 9]"

section \<open>Facts about the numbers\<close>

lemma fl_add_zero_right: "fl_add x (Fin 0) = x"
  by (cases x) simp_all

lemma fl_gt_Fin: "fl_gt (Fin a) (Fin b) \<longleftrightarrow> b < a"
  by (simp add: fl_gt_def)

lemma fl_sub_Fin: "fl_sub (Fin a) (Fin b) = Fin (a - b)"
  by (simp add: fl_sub_def)

lemma fl_lt_NaN_right: "\<not> fl_lt x NaN"
  by (cases x) simp_all

lemma np_sum_Fin: "np_sum (map Fin xs) = Fin (sum_list xs)"
  by (induction xs) (simp_all add: np_sum_def)

lemma np_mean_Fin:
  "np_mean (map Fin xs) = (if xs = [] then NaN else Fin (sum_list xs / real (length xs)))"
  by (simp add: np_mean_def np_sum_Fin)

lemma slice_length: "i + l \<le> length data \<Longrightarrow> length (slice data i (i + l)) = l"
  by (simp add: slice_def)

lemma slice_window_nonempty:
  "j < length data \<Longrightarrow> 0 < l \<Longrightarrow> slice data j (min (j + l) (length data)) \<noteq> []"
  by (auto simp: slice_def)

lemma sum_list_slice:
  assumes "i + l \<le> length data"
  shows "sum_list (map f (slice data i (i + l))) = (\<Sum>k = i ..< i + l. f (data ! k))"
proof -
  have "sum_list (map f (slice data i (i + l))) =
      (\<Sum>k = 0 ..< l. f (slice data i (i + l) ! k))"
    using assms by (simp add: sum_list_sum_nth slice_length)
  also have "\<dots> = (\<Sum>k = 0 ..< l. f (data ! (i + k)))"
    using assms by (intro sum.cong) (simp_all add: slice_def)
  also have "\<dots> = (\<Sum>k = i ..< i + l. f (data ! k))"
    using sum.shift_bounds_nat_ivl[of "\<lambda>k. f (data ! k)" 0 i l] by (simp add: add.commute)
  finally show ?thesis .
qed

lemma np_var_Fin:
  assumes "xs \<noteq> []"
  shows "np_var (map Fin xs) =
     Fin ((\<Sum>x\<leftarrow>xs. (x - sum_list xs / real (length xs))\<^sup>2) / real (length xs))"
proof -
  have "map (\<lambda>x. fl_mul (fl_sub x (Fin m)) (fl_sub x (Fin m))) (map Fin xs) =
      map Fin (map (\<lambda>x. (x - m)\<^sup>2) xs)" for m
    by (simp add: fl_sub_Fin power2_eq_square)
  with assms show ?thesis
    by (simp add: np_var_def np_mean_Fin Let_def del: map_map)
qed

lemma sum_list_constant: "\<forall>x \<in> set xs. x = c \<Longrightarrow> sum_list xs = real (length xs) * c"
  by (induction xs) (simp_all add: algebra_simps)

lemma np_mean_constant:
  assumes "\<forall>x \<in> set xs. x = c"
  shows "np_mean (map Fin xs) = (if xs = [] then NaN else Fin c)"
  using assms by (simp add: np_mean_Fin sum_list_constant)

lemma fl_abs_nonneg: "nonneg_or_nan (fl_abs x)"
  by (cases x) (simp_all add: nonneg_or_nan_def)

lemma fl_sqrt_nonneg: "nonneg_or_nan (fl_sqrt x)"
  by (cases x) (simp_all add: nonneg_or_nan_def)

lemma fl_mul_nonneg:
  assumes "nonneg_or_nan x" and "nonneg_or_nan y"
  shows "nonneg_or_nan (fl_mul x y)"
  using assms unfolding nonneg_or_nan_def
  by (cases x; cases y) (auto simp: inf_of_sign_def)

lemma band_contains_centre:
  assumes "nonneg_or_nan d"
  shows "\<not> fl_lt (Fin c) (fl_sub (Fin c) d) \<and> \<not> fl_gt (Fin c) (fl_add (Fin c) d)"
  using assms unfolding nonneg_or_nan_def
  by (cases d) (auto simp: fl_sub_def fl_gt_def)

lemma unbounded_band:
  assumes "d = PInf \<or> d = NaN"
  shows "\<not> fl_lt (Fin x) (fl_sub r d) \<and> \<not> fl_gt (Fin x) (fl_add r d)"
  using assms by (cases r) (auto simp: fl_sub_def fl_gt_def)

section \<open>Facts about the thresholds\<close>

lemma window_np_var:
  assumes "0 < l" and "i + l \<le> length data"
  shows "np_var (map Fin (slice data i (i + l))) = Fin (window_variance data l i)"
proof -
  have ne: "slice data i (i + l) \<noteq> []"
    using assms slice_length[OF assms(2)] by auto
  have m: "sum_list (slice data i (i + l)) / real l = window_mean data l i"
    using sum_list_slice[OF assms(2), of "\<lambda>x. x"] by (simp add: window_mean_def)
  show ?thesis
    unfolding np_var_Fin[OF ne] slice_length[OF assms(2)] m
    by (simp add: sum_list_slice[OF assms(2)] window_variance_def)
qed

lemma avg_var_Fin:
  assumes "0 < l" and "l < length data"
  shows "avg_var data l = Fin (mean_window_variance data l)"
proof -
  have "map (\<lambda>i. np_var (map Fin (slice data i (i + l)))) [0 ..< length data - l] =
      map Fin (map (window_variance data l) [0 ..< length data - l])"
    using assms by (simp add: window_np_var)
  moreover have "[0 ..< length data - l] \<noteq> []"
    using assms by simp
  ultimately show ?thesis
    by (simp add: avg_var_def np_mean_Fin mean_window_variance_def interv_sum_list_conv_sum_set_nat
        del: map_map)
qed

lemma mean_window_variance_nonneg: "0 \<le> mean_window_variance data l"
  by (simp add: mean_window_variance_def window_variance_def sum_nonneg)

lemma diff_Fin:
  assumes "0 < l" and "0 \<le> a"
  shows "diff (Fin q) (Fin a) l = Fin (q * sqrt (2 * a / real l))"
proof -
  have "0 \<le> 2 * a / real l" using assms by simp
  then have "\<not> 2 * a / real l < 0" by linarith
  with assms show ?thesis by (simp add: diff_def)
qed

lemma diff_nonneg: "nonneg_or_nan (diff (t_stat ppf l p) av l)"
  unfolding diff_def t_stat_def
  by (intro fl_mul_nonneg fl_abs_nonneg fl_sqrt_nonneg)

lemma diff_not_finite:
  assumes "0 < l" and "0 < a" and "\<forall>q. v \<noteq> Fin q"
  shows "diff (fl_abs v) (Fin a) l = PInf \<or> diff (fl_abs v) (Fin a) l = NaN"
proof -
  have "0 < 2 * a / real l" using assms by simp
  then have "\<not> 2 * a / real l < 0" "0 < sqrt (2 * a / real l)" by simp_all
  with assms show ?thesis
    by (cases v) (simp_all add: diff_def inf_of_sign_def)
qed

lemma truncated_window_mean:
  assumes "j < length data" and "0 < l"
  shows "np_mean (map Fin (slice data j (min (j + l) (length data)))) =
     Fin ((\<Sum>k = j ..< min (j + l) (length data). data ! k) /
          real (min (j + l) (length data) - j))"
proof -
  let ?e = "min (j + l) (length data)"
  have e: "j + (?e - j) \<le> length data" "j < ?e" using assms by auto
  have len: "length (slice data j ?e) = ?e - j"
    using slice_length[OF e(1)] e(2) by simp
  have "sum_list (slice data j ?e) = (\<Sum>k = j ..< ?e. data ! k)"
    using sum_list_slice[OF e(1), of "\<lambda>x. x"] e(2) by simp
  moreover have "slice data j ?e \<noteq> []"
    using len e(2) by auto
  ultimately show ?thesis
    by (simp add: np_mean_Fin len)
qed

section \<open>Facts about the accumulation loop\<close>

lemma rsi_loop_length: "length (rsi_loop data l av r t j ks rs) = length rs"
  by (induction ks arbitrary: rs) (simp_all add: Let_def)

lemma rsi_loop_nth_other:
  "idx \<noteq> j \<Longrightarrow> rsi_loop data l av r t j ks rs ! idx = rs ! idx"
  by (induction ks arbitrary: rs) (simp_all add: Let_def)

lemma rsi_loop_fin:
  assumes "a * real l \<noteq> 0" and "j < length rs" and "rs ! j = Fin x" and "0 \<le> x"
  shows "\<exists>y. 0 \<le> y \<and> rsi_loop data l (Fin a) (Fin r) (Fin t) j ks rs = rs[j := Fin y]"
  using assms(2-)
proof (induction ks arbitrary: rs x)
  case Nil
  then have "rs[j := Fin x] = rs" by (metis list_update_id)
  with Nil show ?case by (intro exI[of _ x]) simp
next
  case (Cons k ks)
  let ?up = "x + (data ! k - t) / (a * real l)"
  let ?dn = "x + (t - data ! k) / (a * real l)"
  consider (up) "r < data ! j" | (dn) "data ! j < r" | (eq) "data ! j = r" by linarith
  then show ?case
  proof cases
    case up
    show ?thesis
    proof (cases "?up < 0")
      case True
      with up Cons.prems assms(1) show ?thesis
        by (auto intro!: exI[of _ 0] simp: Let_def fl_gt_def fl_sub_def)
    next
      case False
      let ?rs1 = "rs[j := Fin ?up]"
      have "\<exists>y. 0 \<le> y \<and> rsi_loop data l (Fin a) (Fin r) (Fin t) j ks ?rs1 = ?rs1[j := Fin y]"
        by (rule Cons.IH[of ?rs1 ?up]) (use Cons.prems False in simp_all)
      with up False Cons.prems assms(1) show ?thesis
        by (auto simp: Let_def fl_gt_def fl_sub_def)
    qed
  next
    case dn
    show ?thesis
    proof (cases "?dn < 0")
      case True
      with dn Cons.prems assms(1) show ?thesis
        by (auto intro!: exI[of _ 0] simp: Let_def fl_gt_def fl_sub_def)
    next
      case False
      let ?rs1 = "rs[j := Fin ?dn]"
      have "\<exists>y. 0 \<le> y \<and> rsi_loop data l (Fin a) (Fin r) (Fin t) j ks ?rs1 = ?rs1[j := Fin y]"
        by (rule Cons.IH[of ?rs1 ?dn]) (use Cons.prems False in simp_all)
      with dn False Cons.prems assms(1) show ?thesis
        by (auto simp: Let_def fl_gt_def fl_sub_def)
    qed
  next
    case eq
    have "\<exists>y. 0 \<le> y \<and> rsi_loop data l (Fin a) (Fin r) (Fin t) j ks rs = rs[j := Fin y]"
      by (rule Cons.IH[of rs x]) (use Cons.prems in simp_all)
    with eq Cons.prems show ?thesis
      by (auto simp: Let_def fl_gt_def)
  qed
qed

lemma rsi_loop_step:
  assumes "j < length rs"
  shows "rsi_loop data l av r t j (k # ks) rs =
     (let x1 = fl_add (rs ! j) (rsi_increment data l av r t j k)
      in if fl_lt x1 (Fin 0) then rs[j := Fin 0]
         else rsi_loop data l av r t j ks (rs[j := x1]))"
proof -
  have same: "rs[j := rs ! j] = rs" by simp
  show ?thesis
    using assms by (simp add: rsi_increment_def Let_def fl_add_zero_right same)
qed

lemma bex_from_one_Suc:
  "(\<exists>m \<in> {1 .. Suc n}. Q m) \<longleftrightarrow> Q 1 \<or> (\<exists>m \<in> {1 .. n}. Q (Suc m))"
proof
  assume "\<exists>m \<in> {1 .. Suc n}. Q m"
  then obtain m where m: "1 \<le> m" "m \<le> Suc n" "Q m" by auto
  show "Q 1 \<or> (\<exists>m \<in> {1 .. n}. Q (Suc m))"
  proof (cases "m = 1")
    case True
    with m show ?thesis by simp
  next
    case False
    with m obtain m' where "m = Suc m'" "1 \<le> m'" "m' \<le> n"
      by (cases m) auto
    with m show ?thesis by auto
  qed
next
  assume "Q 1 \<or> (\<exists>m \<in> {1 .. n}. Q (Suc m))"
  then show "\<exists>m \<in> {1 .. Suc n}. Q m"
  proof
    assume "Q 1"
    then show ?thesis by (intro bexI[of _ 1]) simp_all
  next
    assume "\<exists>m \<in> {1 .. n}. Q (Suc m)"
    then obtain m where "1 \<le> m" "m \<le> n" "Q (Suc m)" by auto
    then show ?thesis by (intro bexI[of _ "Suc m"]) simp_all
  qed
qed

lemma rsi_accumulated_Cons:
  "rsi_accumulated data l av r t j x0 (k # ks) =
     (let x1 = fl_add x0 (rsi_increment data l av r t j k)
      in if fl_lt x1 (Fin 0) then Fin 0 else rsi_accumulated data l av r t j x1 ks)"
proof -
  let ?P = "\<lambda>x ks. fl_lt (rsi_partial_sum data l av r t j x ks) (Fin 0)"
  let ?x1 = "fl_add x0 (rsi_increment data l av r t j k)"
  have "(\<exists>m \<in> {1 .. Suc (length ks)}. ?P x0 (take m (k # ks))) \<longleftrightarrow>
      ?P x0 (take 1 (k # ks)) \<or> (\<exists>m \<in> {1 .. length ks}. ?P x0 (take (Suc m) (k # ks)))"
    by (rule bex_from_one_Suc)
  also have "\<dots> \<longleftrightarrow> fl_lt ?x1 (Fin 0) \<or> (\<exists>m \<in> {1 .. length ks}. ?P ?x1 (take m ks))"
    by (simp add: rsi_partial_sum_def)
  finally have "(\<exists>m \<in> {1 .. length (k # ks)}. ?P x0 (take m (k # ks))) \<longleftrightarrow>
      fl_lt ?x1 (Fin 0) \<or> (\<exists>m \<in> {1 .. length ks}. ?P ?x1 (take m ks))"
    by simp
  then show ?thesis
    unfolding rsi_accumulated_def[of data l av r t j x0 "k # ks"] Let_def
    by (simp add: rsi_accumulated_def rsi_partial_sum_def)
qed

lemma rsi_loop_accumulated:
  assumes "j < length rs"
  shows "rsi_loop data l av r t j ks rs = rs[j := rsi_accumulated data l av r t j (rs ! j) ks]"
  using assms
proof (induction ks arbitrary: rs)
  case Nil
  then show ?case by (simp add: rsi_accumulated_def rsi_partial_sum_def)
next
  case (Cons k ks)
  let ?x1 = "fl_add (rs ! j) (rsi_increment data l av r t j k)"
  have step: "rsi_loop data l av r t j (k # ks) rs =
      (if fl_lt ?x1 (Fin 0) then rs[j := Fin 0] else rsi_loop data l av r t j ks (rs[j := ?x1]))"
    using rsi_loop_step[OF Cons.prems, of data l av r t k ks] by (simp only: Let_def)
  have acc: "rsi_accumulated data l av r t j (rs ! j) (k # ks) =
      (if fl_lt ?x1 (Fin 0) then Fin 0 else rsi_accumulated data l av r t j ?x1 ks)"
    using rsi_accumulated_Cons[of data l av r t j "rs ! j" k ks] by (simp only: Let_def)
  show ?case
  proof (cases "fl_lt ?x1 (Fin 0)")
    case True
    then show ?thesis unfolding step acc by simp
  next
    case False
    have "rsi_loop data l av r t j ks (rs[j := ?x1]) =
        (rs[j := ?x1])[j := rsi_accumulated data l av r t j ((rs[j := ?x1]) ! j) ks]"
      by (rule Cons.IH) (use Cons.prems in simp)
    with False Cons.prems show ?thesis unfolding step acc by simp
  qed
qed

lemma rsi_accumulated_stop:
  assumes "1 \<le> m" and "m \<le> length ks"
    and "fl_lt (rsi_partial_sum data l av r t j x0 (take m ks)) (Fin 0)"
  shows "rsi_accumulated data l av r t j x0 ks = Fin 0"
  using assms unfolding rsi_accumulated_def by auto

section \<open>Facts about the scan\<close>

text \<open>
  The proof rule of the \<^verbatim>\<open>while\<close> loop: a property that holds at the start and that
  both branches of the body keep holds when the loop ends.
\<close>

lemma scan_invariant:
  assumes "P i s"
    and "\<And>i s. P i s \<Longrightarrow> i < length data \<Longrightarrow> out_of_range s (data ! i)
           \<Longrightarrow> P (i + 2) (candidate data l av d i s)"
    and "\<And>i s. P i s \<Longrightarrow> i < length data \<Longrightarrow> \<not> out_of_range s (data ! i)
           \<Longrightarrow> P (i + 1) (smooth data l i s)"
  shows "\<exists>i'. length data \<le> i' \<and> P i' (scan data l av d i s)"
  using assms(1)
proof (induction "length data - i" arbitrary: i s rule: less_induct)
  case less
  show ?case
  proof (cases "i < length data")
    case False
    with less.prems show ?thesis by (auto intro: exI[of _ i])
  next
    case True
    show ?thesis
    proof (cases "out_of_range s (data ! i)")
      case oor: True
      have "P (i + 2) (candidate data l av d i s)"
        using assms(2)[OF less.prems True oor] .
      moreover have "length data - (i + 2) < length data - i"
        using True by simp
      ultimately have "\<exists>i'. length data \<le> i' \<and> P i' (scan data l av d (i + 2) (candidate data l av d i s))"
        by (rule less.hyps[rotated])
      then show ?thesis
        using True oor by (subst scan.simps) (simp add: numeral_2_eq_2)
    next
      case oor: False
      have "P (i + 1) (smooth data l i s)"
        using assms(3)[OF less.prems True oor] .
      moreover have "length data - (i + 1) < length data - i"
        using True by simp
      ultimately have "\<exists>i'. length data \<le> i' \<and> P i' (scan data l av d (i + 1) (smooth data l i s))"
        by (rule less.hyps[rotated])
      then show ?thesis
        using True oor by (subst scan.simps) simp
    qed
  qed
qed

lemma scan_past_end: "length data \<le> i \<Longrightarrow> scan data l av d i s = s"
  by (subst scan.simps) simp

lemma candidate_rsi:
  "rsi (candidate data l av d j s) =
     rsi_loop data l av (r1 s) (test_r2_of s (data ! j)) j
       [j + 1 ..< min (j + l) (length data)] (rsi s)"
  by (simp add: candidate_def confirm_def Let_def)

lemma candidate_shifts:
  "regime_shift_indices (candidate data l av d j s) =
     (if fl_gt (rsi (candidate data l av d j s) ! j) (Fin 0)
      then regime_shift_indices s @ [j] else regime_shift_indices s)"
  by (simp add: candidate_def confirm_def Let_def)

lemma candidate_rsi_last:
  assumes "j + 1 = length data"
  shows "rsi (candidate data l av d j s) = rsi s"
  using assms by (simp add: candidate_rsi)

lemma candidate_confirmed:
  assumes "fl_gt (rsi (candidate data l av d j s) ! j) (Fin 0)"
  shows "candidate data l av d j s =
     s\<lparr>r1 := np_mean (map Fin (slice data j (min (j + l) (length data)))),
       r1_lower := fl_sub (np_mean (map Fin (slice data j (min (j + l) (length data))))) d,
       r1_upper := fl_add (np_mean (map Fin (slice data j (min (j + l) (length data))))) d,
       rsi := rsi (candidate data l av d j s),
       regime_shift_indices := regime_shift_indices s @ [j]\<rparr>"
  using assms unfolding candidate_rsi
  by (simp add: candidate_def confirm_def Let_def)

lemma candidate_rejected:
  assumes "\<not> fl_gt (rsi (candidate data l av d j s) ! j) (Fin 0)"
  shows "candidate data l av d j s = s\<lparr>rsi := rsi (candidate data l av d j s)\<rparr>"
  using assms unfolding candidate_rsi
  by (simp add: candidate_def confirm_def Let_def)

lemma index_inv_init: "index_inv (l + 1) data (l + 1) (init_state data l d)"
  by (simp add: index_inv_def init_state_def Let_def)

lemma index_inv_smooth:
  "index_inv lo data i s \<Longrightarrow> index_inv lo data (i + 1) (smooth data l i s)"
  by (auto simp: index_inv_def smooth_def)

lemma index_inv_candidate:
  assumes inv: "index_inv lo data i s" and i: "i < length data"
  shows "index_inv lo data (i + 2) (candidate data l av d i s)"
proof -
  let ?s' = "candidate data l av d i s"
  have len: "length (rsi ?s') = length data"
    using inv by (simp add: candidate_rsi rsi_loop_length index_inv_def)
  have other: "rsi ?s' ! idx = rsi s ! idx" if "idx \<noteq> i" for idx
    using that by (simp add: candidate_rsi rsi_loop_nth_other)
  have zero_i: "rsi s ! i = Fin 0"
    using inv i by (simp add: index_inv_def)
  have last_same: "rsi ?s' = rsi s" if "i + 1 = length data"
    using that by (rule candidate_rsi_last)
  have zeros: "\<forall>idx. i + 2 \<le> idx \<and> idx < length data \<longrightarrow> rsi ?s' ! idx = Fin 0"
    using inv other by (auto simp: index_inv_def)
  have last: "data \<noteq> [] \<longrightarrow> rsi ?s' ! (length data - 1) = Fin 0"
  proof (cases "i + 1 = length data")
    case True
    with last_same inv show ?thesis by (simp add: index_inv_def)
  next
    case False
    with i have "length data - 1 \<noteq> i" by arith
    with other inv show ?thesis by (simp add: index_inv_def)
  qed
  have confirmed: "i + 2 \<le> length data" if "fl_gt (rsi ?s' ! i) (Fin 0)"
  proof (rule ccontr)
    assume "\<not> i + 2 \<le> length data"
    with i have "i + 1 = length data" by arith
    with last_same zero_i that show False by (simp add: fl_gt_def)
  qed
  have shifts: "sorted_wrt (<) (regime_shift_indices ?s') \<and>
      (\<forall>x \<in> set (regime_shift_indices ?s'). lo \<le> x \<and> x < i + 2 \<and> x + 2 \<le> length data)"
  proof (cases "fl_gt (rsi ?s' ! i) (Fin 0)")
    case True
    then have "regime_shift_indices ?s' = regime_shift_indices s @ [i]"
      by (subst candidate_shifts) simp
    with inv confirmed[OF True] show ?thesis
      by (auto simp: index_inv_def sorted_wrt_append)
  next
    case False
    then have "regime_shift_indices ?s' = regime_shift_indices s"
      by (subst candidate_shifts) simp
    with inv show ?thesis by (auto simp: index_inv_def)
  qed
  from inv have "lo \<le> i + 2" by (simp add: index_inv_def)
  with len zeros last shifts show ?thesis
    unfolding index_inv_def by blast
qed

lemma index_inv_final:
  "\<exists>i'. length data \<le> i' \<and> index_inv (l + 1) data i' (final_state ppf data l p)"
  unfolding final_state_def Let_def
  by (rule scan_invariant[where P = "index_inv (l + 1) data"])
     (rule index_inv_init, erule (1) index_inv_candidate, erule index_inv_smooth)

lemma trace_length: "length (snd (rodionov_regimes ppf data l p)) = length data"
proof -
  obtain i' where "index_inv (l + 1) data i' (final_state ppf data l p)"
    using index_inv_final by blast
  then show ?thesis
    by (simp add: rodionov_regimes_def Let_def index_inv_def)
qed

lemma value_inv_init:
  assumes "0 < l" and "data \<noteq> []"
  shows "value_inv data (l + 1) (init_state data l (Fin dd))"
  using assms
  by (simp add: value_inv_def init_state_def Let_def np_mean_Fin fl_sub_Fin)

lemma value_inv_smooth:
  assumes "value_inv data i s" and "0 < l"
  shows "value_inv data (i + 1) (smooth data l i s)"
  using assms by (auto simp: value_inv_def smooth_def)

lemma value_inv_candidate:
  assumes inv: "value_inv data i s" and i: "i < length data"
    and l: "0 < l" and a: "0 < a"
  shows "value_inv data (i + 2) (candidate data l (Fin a) (Fin dd) i s)"
proof -
  let ?s' = "candidate data l (Fin a) (Fin dd) i s"
  from inv obtain r lo up where fin: "r1 s = Fin r" "r1_lower s = Fin lo" "r1_upper s = Fin up"
    by (auto simp: value_inv_def)
  from inv i have len: "length (rsi s) = length data" and zero_i: "rsi s ! i = Fin 0"
    and fresh: "i \<notin> set (regime_shift_indices s)"
    by (auto simp: value_inv_def)
  obtain t where t: "test_r2_of s (data ! i) = Fin t"
    using fin by (cases "data ! i < lo") (simp_all add: test_r2_of_def)
  have "a * real l \<noteq> 0" using l a by simp
  then obtain y where y: "0 \<le> y"
    and loop: "rsi_loop data l (Fin a) (Fin r) (Fin t) i [i + 1 ..< min (i + l) (length data)] (rsi s)
                 = (rsi s)[i := Fin y]"
    using rsi_loop_fin[of a l i "rsi s" 0 data r t] i len zero_i by auto
  have rsi': "rsi ?s' = (rsi s)[i := Fin y]"
    using loop by (simp add: candidate_rsi fin t)
  have at_i: "rsi ?s' ! i = Fin y"
    using rsi' i len by simp
  have shifts': "regime_shift_indices ?s' =
      (if 0 < y then regime_shift_indices s @ [i] else regime_shift_indices s)"
    by (subst candidate_shifts) (simp add: at_i fl_gt_def)
  have r1': "\<exists>r. r1 ?s' = Fin r" "\<exists>lo. r1_lower ?s' = Fin lo" "\<exists>up. r1_upper ?s' = Fin up"
    using fin slice_window_nonempty[OF i l]
    by (simp_all add: candidate_def confirm_def Let_def np_mean_Fin fl_sub_Fin)
  have trace: "\<exists>x. rsi ?s' ! idx = Fin x \<and> 0 \<le> x \<and>
      (0 < x \<longleftrightarrow> idx \<in> set (regime_shift_indices ?s'))" if "idx < length data" for idx
  proof (cases "idx = i")
    case True
    with at_i y fresh shifts' show ?thesis by auto
  next
    case False
    from inv that obtain x where "rsi s ! idx = Fin x" "0 \<le> x"
      "0 < x \<longleftrightarrow> idx \<in> set (regime_shift_indices s)"
      by (auto simp: value_inv_def)
    with False rsi' shifts' show ?thesis by auto
  qed
  have zeros: "\<forall>idx. i + 2 \<le> idx \<and> idx < length data \<longrightarrow> rsi ?s' ! idx = Fin 0"
    using inv rsi' by (auto simp: value_inv_def)
  have below: "\<forall>x \<in> set (regime_shift_indices ?s'). x < i + 2"
    using inv shifts' by (auto simp: value_inv_def)
  have "length (rsi ?s') = length data"
    using rsi' len by simp
  with r1' trace zeros below show ?thesis
    unfolding value_inv_def by blast
qed

lemma value_inv_final:
  assumes "0 < l" and "data \<noteq> []" and "avg_var data l = Fin a" and "0 < a"
    and "ppf p (2 * int l - 2) = Fin q"
  shows "\<exists>i'. length data \<le> i' \<and> value_inv data i' (final_state ppf data l p)"
proof -
  have d: "diff (t_stat ppf l p) (avg_var data l) l = Fin (\<bar>q\<bar> * sqrt (2 * a / real l))"
    using assms by (simp add: t_stat_def diff_Fin)
  show ?thesis
    unfolding final_state_def Let_def d
    unfolding assms(3)
    by (rule scan_invariant[where P = "value_inv data"])
       (rule value_inv_init[OF assms(1,2)],
        erule (1) value_inv_candidate[OF _ _ assms(1,4)],
        erule value_inv_smooth[OF _ assms(1)])
qed

lemma scan_never_flagged:
  assumes "\<forall>i < length data. \<not> out_of_range s (data ! i)"
  shows "rsi (scan data l av d i s) = rsi s \<and>
    regime_shift_indices (scan data l av d i s) = regime_shift_indices s"
proof -
  let ?P = "\<lambda>(i::nat) (s'::regime_state). r1_lower s' = r1_lower s \<and> r1_upper s' = r1_upper s \<and>
    rsi s' = rsi s \<and> regime_shift_indices s' = regime_shift_indices s"
  have "\<exists>i'. length data \<le> i' \<and> ?P i' (scan data l av d i s)"
  proof (rule scan_invariant[where P = ?P])
    show "?P i s" by simp
  next
    fix i and s' :: regime_state
    assume "?P i s'" "i < length data" "out_of_range s' (data ! i)"
    then have "out_of_range s (data ! i)" by (simp add: out_of_range_def)
    with assms \<open>i < length data\<close> have False by blast
    then show "?P (i + 2) (candidate data l av d i s')" ..
  next
    fix i and s' :: regime_state
    assume "?P i s'"
    then show "?P (i + 1) (smooth data l i s')" by (simp add: smooth_def)
  qed
  then show ?thesis by blast
qed

lemma unbounded_band_run:
  assumes "d = PInf \<or> d = NaN"
  shows "rsi (scan data l av d i (init_state data l d)) = replicate (length data) (Fin 0) \<and>
    regime_shift_indices (scan data l av d i (init_state data l d)) = []"
proof -
  have "\<forall>i < length data. \<not> out_of_range (init_state data l d) (data ! i)"
    using unbounded_band[OF assms] by (simp add: out_of_range_def init_state_def Let_def)
  from scan_never_flagged[OF this, of l av d i] show ?thesis
    by (simp add: init_state_def Let_def)
qed

lemma trace_property_final:
  assumes "0 < l" and "data \<noteq> []" and "avg_var data l = Fin a" and "0 < a"
  shows "length (rsi (final_state ppf data l p)) = length data \<and>
    (\<forall>idx < length data. \<exists>x. rsi (final_state ppf data l p) ! idx = Fin x \<and> 0 \<le> x \<and>
       (0 < x \<longleftrightarrow> idx \<in> set (regime_shift_indices (final_state ppf data l p))))"
proof (cases "\<exists>q. ppf p (2 * int l - 2) = Fin q")
  case True
  then obtain q where q: "ppf p (2 * int l - 2) = Fin q" ..
  from value_inv_final[where ppf = ppf and p = p and q = q, OF assms q]
  obtain i' where "value_inv data i' (final_state ppf data l p)" by blast
  then show ?thesis unfolding value_inv_def by blast
next
  case False
  then have "\<forall>q. ppf p (2 * int l - 2) \<noteq> Fin q" by simp
  from diff_not_finite[OF assms(1,4) this]
  have d: "diff (t_stat ppf l p) (avg_var data l) l = PInf \<or>
      diff (t_stat ppf l p) (avg_var data l) l = NaN"
    by (simp add: t_stat_def assms(3))
  from unbounded_band_run[OF d, of data l "avg_var data l" "l + 1"]
  show ?thesis
    by (simp add: final_state_def Let_def)
qed

lemma short_series_run:
  assumes "length data \<le> l"
  shows "rodionov_regimes ppf data l p = ([], replicate (length data) (Fin 0))"
  using assms
  by (simp add: rodionov_regimes_def final_state_def Let_def scan_past_end init_state_def)

lemma short_series_avg_var: "length data \<le> l \<Longrightarrow> avg_var data l = NaN"
  by (simp add: avg_var_def np_mean_def)

lemma centred_series_run:
  assumes "\<forall>x \<in> set data. x = c" and "np_mean (map Fin (take l data)) = Fin c"
  shows "rodionov_regimes ppf data l p = ([], replicate (length data) (Fin 0))"
proof -
  let ?d = "diff (t_stat ppf l p) (avg_var data l) l"
  let ?s0 = "init_state data l ?d"
  have bounds: "r1_lower ?s0 = fl_sub (Fin c) ?d" "r1_upper ?s0 = fl_add (Fin c) ?d"
    by (simp_all add: init_state_def Let_def assms(2))
  have "\<not> out_of_range ?s0 c"
    using band_contains_centre[OF diff_nonneg, of c ppf l p "avg_var data l"]
    unfolding out_of_range_def bounds by simp
  moreover have "data ! i = c" if "i < length data" for i
    using assms(1) that by simp
  ultimately have "\<forall>i < length data. \<not> out_of_range ?s0 (data ! i)"
    by simp
  from scan_never_flagged[OF this, of l "avg_var data l" ?d "l + 1"]
  show ?thesis
    by (simp add: rodionov_regimes_def final_state_def Let_def init_state_def)
qed

lemma constant_series_avg_var:
  assumes "\<forall>x \<in> set data. x = c" and "0 < l" and "l < length data"
  shows "avg_var data l = Fin 0"
proof -
  have nth: "data ! k = c" if "k < length data" for k
    using assms(1) that by simp
  have wv: "window_variance data l i = 0" if "i < length data - l" for i
  proof -
    from that have b: "k < length data" if "k \<in> {i ..< i + l}" for k
      using that by auto
    have "(\<Sum>k = i ..< i + l. data ! k) = (\<Sum>k = i ..< i + l. c)"
      by (intro sum.cong) (simp_all add: nth b)
    then have m: "window_mean data l i = c"
      using assms(2) by (simp add: window_mean_def)
    have "(\<Sum>k = i ..< i + l. (data ! k - c)\<^sup>2) = (\<Sum>k = i ..< i + l. 0)"
      by (intro sum.cong) (simp_all add: nth b)
    then show ?thesis by (simp add: window_variance_def m)
  qed
  have "mean_window_variance data l = 0"
    by (simp add: mean_window_variance_def wv)
  with avg_var_Fin[OF assms(2,3)] show ?thesis by simp
qed

section \<open>Example runs\<close>

lemmas run_defs =
  rodionov_regimes_def final_state_def avg_var_def t_stat_def diff_def init_state_def
  np_mean_def np_var_def np_sum_def slice_def upt_rec fl_sub_def Let_def out_of_range_def
  fl_gt_def candidate_def confirm_def smooth_def test_r2_of_def const_ppf_def

lemma example_avg_var: "avg_var [0, 4, 4, 4, 4, 9] 2 = Fin 1"
  by (simp add: avg_var_def np_mean_def np_var_def np_sum_def slice_def upt_rec fl_sub_def)

lemma example_run:
  "rodionov_regimes (const_ppf (- 1)) [0, 4, 4, 4, 4, 9] 2 (1 / 5) =
     ([3], [Fin 0, Fin 0, Fin 0, Fin (1 / 2), Fin 0, Fin 0])"
  by (simp add: run_defs)

lemma example_init:
  "init_state [0, 4, 4, 4, 4, 9] 2 (Fin 1) =
     \<lparr>r1 = Fin 2, r1_lower = Fin 1, r1_upper = Fin 3,
      rsi = [Fin 0, Fin 0, Fin 0, Fin 0, Fin 0, Fin 0], regime_shift_indices = []\<rparr>"
  by (simp add: init_state_def np_mean_def np_sum_def fl_sub_def Let_def numeral_eq_Suc)

lemma example_first_candidate:
  "candidate [0, 4, 4, 4, 4, 9] 2 (Fin 1) (Fin 1) 3 (init_state [0, 4, 4, 4, 4, 9] 2 (Fin 1)) =
     \<lparr>r1 = Fin 4, r1_lower = Fin 3, r1_upper = Fin 5,
      rsi = [Fin 0, Fin 0, Fin 0, Fin (1 / 2), Fin 0, Fin 0], regime_shift_indices = [3]\<rparr>"
  unfolding example_init
  by (simp add: candidate_def confirm_def test_r2_of_def np_mean_def np_sum_def fl_sub_def
      fl_gt_def slice_def Let_def upt_rec)

lemma spike_avg_var: "avg_var spike_series 3 = Fin (28 / 9)"
  by (simp add: spike_series_def avg_var_def np_mean_def np_var_def np_sum_def slice_def upt_rec
      fl_sub_def)

lemma spike_init:
  "init_state spike_series 3 (Fin 0) =
     \<lparr>r1 = Fin 0, r1_lower = Fin 0, r1_upper = Fin 0,
      rsi = [Fin 0, Fin 0, Fin 0, Fin 0, Fin 0, Fin 0, Fin 0], regime_shift_indices = []\<rparr>"
  by (simp add: spike_series_def init_state_def np_mean_def np_sum_def fl_sub_def Let_def
      numeral_eq_Suc)

lemma stale_run:
  "final_state (const_ppf (- (73 / 25))) [0, 4, 4, 4, 4, 4] 2 (1 / 20) =
     \<lparr>r1 = Fin (15 / 4), r1_lower = Fin (- (23 / 25)), r1_upper = Fin (123 / 25),
      rsi = [Fin 0, Fin 0, Fin 0, Fin 0, Fin 0, Fin 0], regime_shift_indices = []\<rparr>"
  by (simp add: run_defs)

lemma stale_diff:
  "diff (t_stat (const_ppf (- (73 / 25))) 2 (1 / 20)) (avg_var [0, 4, 4, 4, 4, 4] 2) 2 =
     Fin (73 / 25)"
  by (simp add: run_defs)

section \<open>The claims\<close>

subsection \<open>The RSI trace and the shift indices\<close>

text \<open>
  Claim C1. For every series of length \<open>n\<close> and every \<open>l\<close> with \<open>1 \<le> l < n\<close> and a
  positive average window variance, whatever the quantile function returns: the RSI trace
  has length \<open>n\<close>, every entry is a non-negative number, an entry is positive exactly when
  its position is among the shift indices, and every other entry is exactly 0.
\<close>

theorem rsi_trace_marks_shifts:
  assumes "1 \<le> l" and "l < length data"
    and "avg_var data l = Fin a" and "0 < a"
  shows "length (snd (rodionov_regimes ppf data l p)) = length data \<and>
    (\<forall>i < length data. \<exists>x. snd (rodionov_regimes ppf data l p) ! i = Fin x \<and> 0 \<le> x \<and>
       (0 < x \<longleftrightarrow> i \<in> set (fst (rodionov_regimes ppf data l p))) \<and>
       (i \<notin> set (fst (rodionov_regimes ppf data l p)) \<longrightarrow> x = 0))"
proof -
  from assms(1,2) have "0 < l" "data \<noteq> []" by auto
  note fin = trace_property_final[OF this assms(3,4), of ppf p]
  have "\<exists>x. rsi (final_state ppf data l p) ! i = Fin x \<and> 0 \<le> x \<and>
       (0 < x \<longleftrightarrow> i \<in> set (regime_shift_indices (final_state ppf data l p))) \<and>
       (i \<notin> set (regime_shift_indices (final_state ppf data l p)) \<longrightarrow> x = 0)"
    if "i < length data" for i
  proof -
    from fin that obtain x where x: "rsi (final_state ppf data l p) ! i = Fin x" "0 \<le> x"
      "0 < x \<longleftrightarrow> i \<in> set (regime_shift_indices (final_state ppf data l p))"
      by blast
    then have "i \<notin> set (regime_shift_indices (final_state ppf data l p)) \<longrightarrow> x = 0"
      by auto
    with x show ?thesis by blast
  qed
  with fin show ?thesis
    by (simp add: rodionov_regimes_def Let_def)
qed

text \<open>
  On the series \<open>0, 4, 4, 4, 4, 9\<close> with \<open>l = 2\<close>: position 3 is a shift index with a
  positive entry, position 5 is not one and its entry is 0.
\<close>

theorem rsi_trace_marks_shifts_witness:
  "1 \<le> (2::nat) \<and> 2 < length [0, 4, 4, 4, 4, 9 :: real] \<and>
   avg_var [0, 4, 4, 4, 4, 9] 2 = Fin 1 \<and> (0::real) < 1 \<and>
   length (snd (rodionov_regimes (const_ppf (- 1)) [0, 4, 4, 4, 4, 9] 2 (1 / 5))) =
     length [0, 4, 4, 4, 4, 9 :: real] \<and>
   (\<exists>x. snd (rodionov_regimes (const_ppf (- 1)) [0, 4, 4, 4, 4, 9] 2 (1 / 5)) ! 3 = Fin x \<and>
        0 < x \<and> 3 \<in> set (fst (rodionov_regimes (const_ppf (- 1)) [0, 4, 4, 4, 4, 9] 2 (1 / 5)))) \<and>
   (\<exists>x. snd (rodionov_regimes (const_ppf (- 1)) [0, 4, 4, 4, 4, 9] 2 (1 / 5)) ! 5 = Fin x \<and>
        x = 0 \<and> 5 \<notin> set (fst (rodionov_regimes (const_ppf (- 1)) [0, 4, 4, 4, 4, 9] 2 (1 / 5))))"
proof -
  have h: "1 \<le> (2::nat)" "2 < length [0, 4, 4, 4, 4, 9 :: real]" "(0::real) < 1"
    by simp_all
  have m: "3 \<in> set (fst (rodionov_regimes (const_ppf (- 1)) [0, 4, 4, 4, 4, 9] 2 (1 / 5)))"
    "5 \<notin> set (fst (rodionov_regimes (const_ppf (- 1)) [0, 4, 4, 4, 4, 9] 2 (1 / 5)))"
    by (simp_all add: example_run)
  have i: "(3::nat) < length [0, 4, 4, 4, 4, 9 :: real]" "(5::nat) < length [0, 4, 4, 4, 4, 9 :: real]"
    by simp_all
  note t = rsi_trace_marks_shifts[OF h(1,2) example_avg_var h(3), of "const_ppf (- 1)" "1 / 5"]
  from t i(1) m(1) have "\<exists>x. snd (rodionov_regimes (const_ppf (- 1)) [0, 4, 4, 4, 4, 9] 2 (1 / 5)) ! 3 = Fin x \<and>
        0 < x \<and> 3 \<in> set (fst (rodionov_regimes (const_ppf (- 1)) [0, 4, 4, 4, 4, 9] 2 (1 / 5)))"
    by blast
  moreover from t i(2) m(2) have "\<exists>x. snd (rodionov_regimes (const_ppf (- 1)) [0, 4, 4, 4, 4, 9] 2 (1 / 5)) ! 5 = Fin x \<and>
        x = 0 \<and> 5 \<notin> set (fst (rodionov_regimes (const_ppf (- 1)) [0, 4, 4, 4, 4, 9] 2 (1 / 5)))"
    by blast
  moreover from t have "length (snd (rodionov_regimes (const_ppf (- 1)) [0, 4, 4, 4, 4, 9] 2 (1 / 5))) =
     length [0, 4, 4, 4, 4, 9 :: real]" by blast
  ultimately show ?thesis using h example_avg_var by blast
qed

text \<open>
  Claim C2. For every input (the preconditions are not needed), the shift indices
  are strictly increasing and each of them lies between \<open>l + 1\<close> and \<open>n - 1\<close>.
\<close>

theorem shift_indices_increasing_in_range:
  "sorted_wrt (<) (fst (rodionov_regimes ppf data l p)) \<and>
   (\<forall>j \<in> set (fst (rodionov_regimes ppf data l p)). l + 1 \<le> j \<and> j \<le> length data - 1)"
proof -
  obtain i' where "index_inv (l + 1) data i' (final_state ppf data l p)"
    using index_inv_final by blast
  then show ?thesis
    by (auto simp: rodionov_regimes_def Let_def index_inv_def)
qed

text \<open>
  On the same series, 3 is a shift index, and \<open>2 + 1 \<le> 3 \<le> 6 - 1\<close>.
\<close>

theorem shift_indices_increasing_in_range_witness:
  "3 \<in> set (fst (rodionov_regimes (const_ppf (- 1)) [0, 4, 4, 4, 4, 9] 2 (1 / 5))) \<and>
   sorted_wrt (<) (fst (rodionov_regimes (const_ppf (- 1)) [0, 4, 4, 4, 4, 9] 2 (1 / 5))) \<and>
   2 + 1 \<le> (3::nat) \<and> (3::nat) \<le> length [0, 4, 4, 4, 4, 9 :: real] - 1"
proof -
  have m: "3 \<in> set (fst (rodionov_regimes (const_ppf (- 1)) [0, 4, 4, 4, 4, 9] 2 (1 / 5)))"
    by (simp add: example_run)
  with shift_indices_increasing_in_range[of "const_ppf (- 1)" "[0, 4, 4, 4, 4, 9]" 2 "1 / 5"]
  show ?thesis by blast
qed

subsection \<open>The thresholds\<close>

text \<open>
  Claim C3. For \<open>1 \<le> l < n\<close>: \<open>t_stat\<close> is the absolute value of the quantile at \<open>p\<close>
  with \<open>2l - 2\<close> degrees of freedom; \<open>avg_var\<close> is the mean, over the start offsets
  \<open>0, \<dots>, n - l - 1\<close>, of the population variance (divisor \<open>l\<close>) of the window of length
  \<open>l\<close>; \<open>diff\<close> is \<open>t_stat\<close> times the square root of \<open>2 * avg_var / l\<close>; and the run is
  the scan from \<open>l + 1\<close> with these values, computed before it and never changed by it.
\<close>

theorem thresholds_computed_before_scan:
  assumes "1 \<le> l" and "l < length data"
  shows "t_stat ppf l p = fl_abs (ppf p (2 * int l - 2)) \<and>
    avg_var data l = Fin (mean_window_variance data l) \<and>
    diff (t_stat ppf l p) (avg_var data l) l =
      fl_mul (t_stat ppf l p) (Fin (sqrt (2 * mean_window_variance data l / real l))) \<and>
    final_state ppf data l p =
      scan data l (avg_var data l) (diff (t_stat ppf l p) (avg_var data l) l) (l + 1)
        (init_state data l (diff (t_stat ppf l p) (avg_var data l) l))"
proof -
  from assms have l: "0 < l" by simp
  have av: "avg_var data l = Fin (mean_window_variance data l)"
    by (rule avg_var_Fin[OF l assms(2)])
  have "0 \<le> 2 * mean_window_variance data l / real l"
    using mean_window_variance_nonneg[of data l] by simp
  then have "\<not> 2 * mean_window_variance data l / real l < 0" by linarith
  with l have "diff ts (Fin (mean_window_variance data l)) l =
      fl_mul ts (Fin (sqrt (2 * mean_window_variance data l / real l)))" for ts
    by (simp add: diff_def)
  with av show ?thesis
    by (simp add: t_stat_def final_state_def Let_def)
qed

text \<open>
  On the series \<open>0, 4, 4, 4, 4, 9\<close> with \<open>l = 2\<close> the mean window variance is 1.
\<close>

theorem thresholds_computed_before_scan_witness:
  "1 \<le> (2::nat) \<and> 2 < length [0, 4, 4, 4, 4, 9 :: real] \<and>
   t_stat (const_ppf (- 1)) 2 (1 / 5) = fl_abs (const_ppf (- 1) (1 / 5) (2 * int 2 - 2)) \<and>
   avg_var [0, 4, 4, 4, 4, 9] 2 = Fin (mean_window_variance [0, 4, 4, 4, 4, 9] 2) \<and>
   mean_window_variance [0, 4, 4, 4, 4, 9] 2 = 1 \<and>
   diff (t_stat (const_ppf (- 1)) 2 (1 / 5)) (avg_var [0, 4, 4, 4, 4, 9] 2) 2 =
     fl_mul (t_stat (const_ppf (- 1)) 2 (1 / 5))
       (Fin (sqrt (2 * mean_window_variance [0, 4, 4, 4, 4, 9] 2 / real 2)))"
proof -
  have h: "1 \<le> (2::nat)" "2 < length [0, 4, 4, 4, 4, 9 :: real]" by simp_all
  note t = thresholds_computed_before_scan[OF h, of "const_ppf (- 1)" "1 / 5"]
  from t example_avg_var have "mean_window_variance [0, 4, 4, 4, 4, 9] 2 = 1" by simp
  with t h show ?thesis by blast
qed

subsection \<open>A candidate shift\<close>

text \<open>
  Claim C4. For a candidate at \<open>j\<close>: \<open>test_r2\<close> is the bound that \<open>data[j]\<close> crossed
  (the lower one if \<open>data[j]\<close> is below it, else the upper one); after the loop over
  \<open>k = j + 1, \<dots>, min (j + l) n - 1\<close> only \<open>rsi[j]\<close> has changed, and it holds the running
  sum of the increments \<open>(data[k] - test_r2) / (avg_var * l)\<close> (upward candidate) or
  \<open>(test_r2 - data[k]) / (avg_var * l)\<close> (downward candidate), or exactly 0 if a running
  sum was below zero; and once a running sum is below zero the result is the trace with 0
  at \<open>j\<close>, whatever values of \<open>k\<close> would follow.
\<close>

theorem rsi_accumulation_with_early_stop:
  assumes "j < length (rsi s)"
  shows "(out_of_range s (data ! j) \<longrightarrow>
       (fl_lt (Fin (data ! j)) (r1_lower s) \<and> test_r2_of s (data ! j) = r1_lower s) \<or>
       (\<not> fl_lt (Fin (data ! j)) (r1_lower s) \<and> fl_gt (Fin (data ! j)) (r1_upper s) \<and>
          test_r2_of s (data ! j) = r1_upper s)) \<and>
    rsi (candidate data l av d j s) =
      (rsi s)[j := rsi_accumulated data l av (r1 s) (test_r2_of s (data ! j)) j (rsi s ! j)
                     [j + 1 ..< min (j + l) (length data)]] \<and>
    (\<forall>ks m. 1 \<le> m \<and> m \<le> length ks \<and>
        fl_lt (rsi_partial_sum data l av (r1 s) (test_r2_of s (data ! j)) j (rsi s ! j)
                 (take m ks)) (Fin 0) \<longrightarrow>
        rsi_loop data l av (r1 s) (test_r2_of s (data ! j)) j ks (rsi s) = (rsi s)[j := Fin 0])"
proof (intro conjI allI impI)
  assume "out_of_range s (data ! j)"
  then show "(fl_lt (Fin (data ! j)) (r1_lower s) \<and> test_r2_of s (data ! j) = r1_lower s) \<or>
       (\<not> fl_lt (Fin (data ! j)) (r1_lower s) \<and> fl_gt (Fin (data ! j)) (r1_upper s) \<and>
          test_r2_of s (data ! j) = r1_upper s)"
    by (auto simp: out_of_range_def test_r2_of_def)
next
  show "rsi (candidate data l av d j s) =
      (rsi s)[j := rsi_accumulated data l av (r1 s) (test_r2_of s (data ! j)) j (rsi s ! j)
                     [j + 1 ..< min (j + l) (length data)]]"
    unfolding candidate_rsi by (rule rsi_loop_accumulated[OF assms])
next
  fix ks m
  assume "1 \<le> m \<and> m \<le> length ks \<and>
        fl_lt (rsi_partial_sum data l av (r1 s) (test_r2_of s (data ! j)) j (rsi s ! j)
                 (take m ks)) (Fin 0)"
  then have "rsi_accumulated data l av (r1 s) (test_r2_of s (data ! j)) j (rsi s ! j) ks = Fin 0"
    using rsi_accumulated_stop by blast
  then show "rsi_loop data l av (r1 s) (test_r2_of s (data ! j)) j ks (rsi s) = (rsi s)[j := Fin 0]"
    by (simp add: rsi_loop_accumulated[OF assms])
qed

text \<open>
  On the spike series with \<open>l = 3\<close>, the candidate at 4 is upward, the first increment
  makes the sum negative and the loop leaves 0 at position 4, although \<open>data[6] = 9\<close>
  would have made the sum positive.
\<close>

theorem rsi_accumulation_with_early_stop_witness:
  "4 < length (rsi (init_state spike_series 3 (Fin 0))) \<and>
   out_of_range (init_state spike_series 3 (Fin 0)) (spike_series ! 4) \<and>
   fl_gt (Fin (spike_series ! 4)) (r1_upper (init_state spike_series 3 (Fin 0))) \<and>
   test_r2_of (init_state spike_series 3 (Fin 0)) (spike_series ! 4) =
     r1_upper (init_state spike_series 3 (Fin 0)) \<and>
   fl_lt (rsi_partial_sum spike_series 3 (avg_var spike_series 3)
            (r1 (init_state spike_series 3 (Fin 0)))
            (test_r2_of (init_state spike_series 3 (Fin 0)) (spike_series ! 4)) 4
            (rsi (init_state spike_series 3 (Fin 0)) ! 4) (take 1 [5, 6])) (Fin 0) \<and>
   rsi_loop spike_series 3 (avg_var spike_series 3) (r1 (init_state spike_series 3 (Fin 0)))
       (test_r2_of (init_state spike_series 3 (Fin 0)) (spike_series ! 4)) 4 [5, 6]
       (rsi (init_state spike_series 3 (Fin 0))) =
     (rsi (init_state spike_series 3 (Fin 0)))[4 := Fin 0] \<and>
   rsi (candidate spike_series 3 (avg_var spike_series 3) (Fin 0) 4
          (init_state spike_series 3 (Fin 0))) =
     (rsi (init_state spike_series 3 (Fin 0)))[4 := Fin 0]"
proof -
  let ?s = "init_state spike_series 3 (Fin 0)"
  let ?av = "avg_var spike_series 3"
  have j: "4 < length (rsi ?s)" by (simp add: spike_init)
  have oor: "out_of_range ?s (spike_series ! 4)"
    unfolding out_of_range_def spike_init by (simp add: fl_gt_def spike_series_def)
  have up: "\<not> fl_lt (Fin (spike_series ! 4)) (r1_lower ?s)"
    unfolding spike_init by (simp add: spike_series_def)
  have t2: "test_r2_of ?s (spike_series ! 4) = Fin 0"
    unfolding test_r2_of_def spike_init by (simp add: spike_series_def)
  have neg: "fl_lt (rsi_partial_sum spike_series 3 ?av (r1 ?s) (test_r2_of ?s (spike_series ! 4)) 4
      (rsi ?s ! 4) (take 1 [5, 6])) (Fin 0)"
    unfolding spike_avg_var spike_init
    by (simp add: test_r2_of_def rsi_partial_sum_def rsi_increment_def fl_gt_def fl_sub_def
        spike_series_def)
  have ks: "[4 + 1 ..< min (4 + 3) (length spike_series)] = [5, 6]"
    by (simp add: spike_series_def upt_rec)
  have m: "(1::nat) \<le> 1 \<and> 1 \<le> length [5, 6 :: nat]" by simp
  note t = rsi_accumulation_with_early_stop[OF j, of spike_series 3 ?av "Fin 0"]
  from t oor up have c1: "fl_gt (Fin (spike_series ! 4)) (r1_upper ?s) \<and>
      test_r2_of ?s (spike_series ! 4) = r1_upper ?s"
    by blast
  from t m neg have c3: "rsi_loop spike_series 3 ?av (r1 ?s) (test_r2_of ?s (spike_series ! 4)) 4
      [5, 6] (rsi ?s) = (rsi ?s)[4 := Fin 0]"
    by blast
  have c2: "rsi (candidate spike_series 3 ?av (Fin 0) 4 ?s) = (rsi ?s)[4 := Fin 0]"
    using c3 ks by (simp add: candidate_rsi)
  from j oor c1 neg c3 c2 show ?thesis by blast
qed

text \<open>
  Claim C5. After the loop for a candidate at \<open>j < n\<close> (with \<open>l > 0\<close>): if \<open>rsi[j] > 0\<close>
  then \<open>j\<close> is appended to the shift indices, \<open>r1\<close> becomes the mean of
  \<open>data[j], \<dots>, data[min (j + l) n - 1]\<close> (a window cut at the end of the series, and a
  number), and the bounds become \<open>r1 - diff\<close> and \<open>r1 + diff\<close> for the same \<open>diff\<close>; if
  \<open>rsi[j]\<close> is 0 then the shift indices, \<open>r1\<close> and the bounds stay as they were.
\<close>

theorem confirmation_after_loop:
  assumes "j < length data" and "0 < l"
  shows "(fl_gt (rsi (candidate data l av d j s) ! j) (Fin 0) \<longrightarrow>
       regime_shift_indices (candidate data l av d j s) = regime_shift_indices s @ [j] \<and>
       r1 (candidate data l av d j s) =
         Fin ((\<Sum>k = j ..< min (j + l) (length data). data ! k) /
              real (min (j + l) (length data) - j)) \<and>
       r1_lower (candidate data l av d j s) = fl_sub (r1 (candidate data l av d j s)) d \<and>
       r1_upper (candidate data l av d j s) = fl_add (r1 (candidate data l av d j s)) d) \<and>
     (rsi (candidate data l av d j s) ! j = Fin 0 \<longrightarrow>
       regime_shift_indices (candidate data l av d j s) = regime_shift_indices s \<and>
       r1 (candidate data l av d j s) = r1 s \<and>
       r1_lower (candidate data l av d j s) = r1_lower s \<and>
       r1_upper (candidate data l av d j s) = r1_upper s)"
proof (intro conjI impI)
  assume c: "fl_gt (rsi (candidate data l av d j s) ! j) (Fin 0)"
  note eq = candidate_confirmed[OF c]
  show "regime_shift_indices (candidate data l av d j s) = regime_shift_indices s @ [j]"
    by (subst eq) simp
  show r: "r1 (candidate data l av d j s) =
         Fin ((\<Sum>k = j ..< min (j + l) (length data). data ! k) /
              real (min (j + l) (length data) - j))"
    by (subst eq) (simp add: truncated_window_mean[OF assms])
  show "r1_lower (candidate data l av d j s) = fl_sub (r1 (candidate data l av d j s)) d"
    unfolding r by (subst eq) (simp add: truncated_window_mean[OF assms])
  show "r1_upper (candidate data l av d j s) = fl_add (r1 (candidate data l av d j s)) d"
    unfolding r by (subst eq) (simp add: truncated_window_mean[OF assms])
next
  assume z: "rsi (candidate data l av d j s) ! j = Fin 0"
  then have "\<not> fl_gt (rsi (candidate data l av d j s) ! j) (Fin 0)"
    by (simp add: fl_gt_def)
  note eq = candidate_rejected[OF this]
  show "regime_shift_indices (candidate data l av d j s) = regime_shift_indices s"
    by (subst eq) simp
  show "r1 (candidate data l av d j s) = r1 s" by (subst eq) simp
  show "r1_lower (candidate data l av d j s) = r1_lower s" by (subst eq) simp
  show "r1_upper (candidate data l av d j s) = r1_upper s" by (subst eq) simp
qed

text \<open>
  On the series \<open>0, 4, 4, 4, 4, 9\<close> with \<open>l = 2\<close> and \<open>diff = 1\<close>: the candidate at 3 is
  confirmed and \<open>r1\<close> becomes 4 with bounds 3 and 5; the candidate at 5 that follows is
  rejected and leaves them.
\<close>

theorem confirmation_after_loop_witness:
  "(3::nat) < length [0, 4, 4, 4, 4, 9 :: real] \<and> (0::nat) < 2 \<and>
   fl_gt (rsi (candidate [0, 4, 4, 4, 4, 9] 2 (Fin 1) (Fin 1) 3
                (init_state [0, 4, 4, 4, 4, 9] 2 (Fin 1))) ! 3) (Fin 0) \<and>
   regime_shift_indices (candidate [0, 4, 4, 4, 4, 9] 2 (Fin 1) (Fin 1) 3
                (init_state [0, 4, 4, 4, 4, 9] 2 (Fin 1))) =
     regime_shift_indices (init_state [0, 4, 4, 4, 4, 9] 2 (Fin 1)) @ [3] \<and>
   r1 (candidate [0, 4, 4, 4, 4, 9] 2 (Fin 1) (Fin 1) 3
                (init_state [0, 4, 4, 4, 4, 9] 2 (Fin 1))) = Fin 4 \<and>
   r1_lower (candidate [0, 4, 4, 4, 4, 9] 2 (Fin 1) (Fin 1) 3
                (init_state [0, 4, 4, 4, 4, 9] 2 (Fin 1))) = Fin 3 \<and>
   r1_upper (candidate [0, 4, 4, 4, 4, 9] 2 (Fin 1) (Fin 1) 3
                (init_state [0, 4, 4, 4, 4, 9] 2 (Fin 1))) = Fin 5 \<and>
   rsi (candidate [0, 4, 4, 4, 4, 9] 2 (Fin 1) (Fin 1) 5
          (candidate [0, 4, 4, 4, 4, 9] 2 (Fin 1) (Fin 1) 3
             (init_state [0, 4, 4, 4, 4, 9] 2 (Fin 1)))) ! 5 = Fin 0 \<and>
   regime_shift_indices (candidate [0, 4, 4, 4, 4, 9] 2 (Fin 1) (Fin 1) 5
          (candidate [0, 4, 4, 4, 4, 9] 2 (Fin 1) (Fin 1) 3
             (init_state [0, 4, 4, 4, 4, 9] 2 (Fin 1)))) = [3] \<and>
   r1 (candidate [0, 4, 4, 4, 4, 9] 2 (Fin 1) (Fin 1) 5
          (candidate [0, 4, 4, 4, 4, 9] 2 (Fin 1) (Fin 1) 3
             (init_state [0, 4, 4, 4, 4, 9] 2 (Fin 1)))) = Fin 4"
proof -
  let ?D = "[0, 4, 4, 4, 4, 9 :: real]"
  let ?s0 = "init_state ?D 2 (Fin 1)"
  let ?s1 = "candidate ?D 2 (Fin 1) (Fin 1) 3 ?s0"
  let ?s2 = "candidate ?D 2 (Fin 1) (Fin 1) 5 ?s1"
  have h: "(3::nat) < length ?D" "(5::nat) < length ?D" "(0::nat) < 2" by simp_all
  have pos: "fl_gt (rsi ?s1 ! 3) (Fin 0)"
    by (simp add: example_first_candidate fl_gt_def)
  have zero: "rsi ?s2 ! 5 = Fin 0"
    by (simp add: candidate_rsi example_first_candidate)
  note a = confirmation_after_loop[OF h(1,3), of "Fin 1" "Fin 1" ?s0]
  note b = confirmation_after_loop[OF h(2,3), of "Fin 1" "Fin 1" ?s1]
  from a pos have a': "regime_shift_indices ?s1 = regime_shift_indices ?s0 @ [3]"
    "r1 ?s1 = Fin ((\<Sum>k = 3 ..< min (3 + 2) (length ?D). ?D ! k) / real (min (3 + 2) (length ?D) - 3))"
    "r1_lower ?s1 = fl_sub (r1 ?s1) (Fin 1)" "r1_upper ?s1 = fl_add (r1 ?s1) (Fin 1)"
    by blast+
  from b zero have b': "regime_shift_indices ?s2 = regime_shift_indices ?s1" "r1 ?s2 = r1 ?s1"
    by blast+
  have "(\<Sum>k = 3 ..< min (3 + 2) (length ?D). ?D ! k) / real (min (3 + 2) (length ?D) - 3) = 4"
    by (simp add: sum.atLeast_Suc_lessThan)
  with a' have r: "r1 ?s1 = Fin 4" "r1_lower ?s1 = Fin 3" "r1_upper ?s1 = Fin 5"
    by (simp_all add: fl_sub_def)
  have s0: "regime_shift_indices ?s0 = []" by (simp add: example_init)
  from h pos a'(1) r zero b' s0 show ?thesis by simp
qed

subsection \<open>The bounds after smoothing\<close>

text \<open>
  Claim C6 says that the bounds are always \<open>r1 - diff\<close> and \<open>r1 + diff\<close>, also after the
  smoothing update of \<open>r1\<close>. The \<^verbatim>\<open>else\<close> branch (line 74) assigns \<open>r1\<close> only. On the
  series \<open>0, 4, 4, 4, 4, 4\<close> with \<open>l = 2\<close> and the quantile \<open>- 2.92\<close> (that of \<open>p = 0.05\<close> with
  2 degrees of freedom, to two decimals), \<open>diff\<close> is 2.92 and the run ends, after three
  smoothing updates, with \<open>r1 = 3.75\<close> and the bounds \<open>- 0.92\<close> and \<open>4.92\<close> of the first
  regime mean 2.
\<close>

theorem smoothing_leaves_bounds_stale:
  "r1 (final_state (const_ppf (- (73 / 25))) [0, 4, 4, 4, 4, 4] 2 (1 / 20)) = Fin (15 / 4) \<and>
   diff (t_stat (const_ppf (- (73 / 25))) 2 (1 / 20)) (avg_var [0, 4, 4, 4, 4, 4] 2) 2 =
     Fin (73 / 25) \<and>
   r1_lower (final_state (const_ppf (- (73 / 25))) [0, 4, 4, 4, 4, 4] 2 (1 / 20)) =
     Fin (- (23 / 25)) \<and>
   r1_upper (final_state (const_ppf (- (73 / 25))) [0, 4, 4, 4, 4, 4] 2 (1 / 20)) =
     Fin (123 / 25) \<and>
   r1_lower (final_state (const_ppf (- (73 / 25))) [0, 4, 4, 4, 4, 4] 2 (1 / 20)) \<noteq>
     fl_sub (r1 (final_state (const_ppf (- (73 / 25))) [0, 4, 4, 4, 4, 4] 2 (1 / 20)))
       (diff (t_stat (const_ppf (- (73 / 25))) 2 (1 / 20)) (avg_var [0, 4, 4, 4, 4, 4] 2) 2) \<and>
   r1_upper (final_state (const_ppf (- (73 / 25))) [0, 4, 4, 4, 4, 4] 2 (1 / 20)) \<noteq>
     fl_add (r1 (final_state (const_ppf (- (73 / 25))) [0, 4, 4, 4, 4, 4] 2 (1 / 20)))
       (diff (t_stat (const_ppf (- (73 / 25))) 2 (1 / 20)) (avg_var [0, 4, 4, 4, 4, 4] 2) 2)"
  unfolding stale_run stale_diff by (simp add: fl_sub_def)

subsection \<open>Inputs outside the preconditions\<close>

text \<open>
  Claim C7 says that a call with \<open>l \<ge> n\<close> fails with \<^verbatim>\<open>InvalidParameter\<close>. The code
  has no check: on the series \<open>1, 2, 3\<close> with \<open>l = 3\<close> the call returns no shift index and
  a trace of zeros.
\<close>

theorem short_series_no_failure:
  "detect (const_ppf (- (2132 / 1000))) [1, 2, 3] 3 (1 / 20) = Inr ([], [Fin 0, Fin 0, Fin 0]) \<and>
   detect (const_ppf (- (2132 / 1000))) [1, 2, 3] 3 (1 / 20) \<noteq> Inl InvalidParameter"
  by (simp add: detect_def run_defs)

text \<open>
  Claim C7 as amended. For every input with \<open>l \<ge> n\<close>, the average variance is NaN
  (the mean of no window), the scan does not start, and the call returns no shift index
  and a trace of \<open>n\<close> zeros.
\<close>

theorem short_series_returns_empty:
  assumes "length data \<le> l"
  shows "avg_var data l = NaN \<and>
    detect ppf data l p = Inr ([], replicate (length data) (Fin 0))"
  using assms by (simp add: detect_def short_series_run short_series_avg_var)

text \<open>
  On the series \<open>1, 2\<close> with \<open>l = 5\<close>.
\<close>

theorem short_series_returns_empty_witness:
  "length [1, 2 :: real] \<le> 5 \<and> avg_var [1, 2] 5 = NaN \<and>
   detect (const_ppf (- 2)) [1, 2] 5 (1 / 20) = Inr ([], [Fin 0, Fin 0])"
proof -
  have h: "length [1, 2 :: real] \<le> 5" by simp
  from short_series_returns_empty[OF h, of "const_ppf (- 2)" "1 / 20"] h
  show ?thesis by (simp add: numeral_2_eq_2)
qed

text \<open>
  Claim C8 says that a call on a constant series fails with \<^verbatim>\<open>DegenerateInput\<close>.
  The code has no check: on 50 values 1 with \<open>l = 10\<close> the average variance is 0 and the
  call returns no shift index and a trace of zeros. (Every operation of this run is exact
  in double precision as well: sums and means of ones, products with 0.)
\<close>

theorem constant_series_no_failure:
  "avg_var (replicate 50 1) 10 = Fin 0 \<and>
   detect (const_ppf (- (1734 / 1000))) (replicate 50 1) 10 (1 / 20) =
     Inr ([], replicate 50 (Fin 0)) \<and>
   detect (const_ppf (- (1734 / 1000))) (replicate 50 1) 10 (1 / 20) \<noteq> Inl DegenerateInput"
proof -
  have c: "\<forall>x \<in> set (replicate 50 (1::real)). x = 1" by simp
  have "\<forall>x \<in> set (take 10 (replicate 50 (1::real))). x = 1"
    by (auto dest: in_set_takeD)
  from np_mean_constant[OF this]
  have m: "np_mean (map Fin (take 10 (replicate 50 (1::real)))) = Fin 1"
    by simp
  have "avg_var (replicate 50 1) 10 = Fin 0"
    by (rule constant_series_avg_var[OF c]) simp_all
  moreover have "rodionov_regimes (const_ppf (- (1734 / 1000))) (replicate 50 1) 10 (1 / 20) =
      ([], replicate 50 (Fin 0))"
    using centred_series_run[OF c m, of "const_ppf (- (1734 / 1000))" "1 / 20"] by simp
  ultimately show ?thesis by (simp add: detect_def)
qed

text \<open>
  Claim C8 as amended. For every constant series, every \<open>l\<close> and every quantile, the
  call does not fail with \<^verbatim>\<open>DegenerateInput\<close>: it returns shift indices and a trace of
  length \<open>n\<close>. Where moreover the initial regime mean \<^verbatim>\<open>np.mean(data[:l])\<close> is computed
  as the constant itself, no value leaves the band around it and the call returns no shift
  index and a trace of \<open>n\<close> zeros. The value of the computed mean is a hypothesis, and
  nothing is used of the thresholds but their sign: the second part does not rest on the
  exact arithmetic of the model. Where rounding moves the computed mean off the constant,
  the claim as amended says nothing.
\<close>

theorem constant_series_returns_normally:
  assumes "\<forall>x \<in> set data. x = c"
  shows "(\<exists>shifts trace. detect ppf data l p = Inr (shifts, trace) \<and>
            length trace = length data) \<and>
    detect ppf data l p \<noteq> Inl DegenerateInput \<and>
    (np_mean (map Fin (take l data)) = Fin c \<longrightarrow>
       detect ppf data l p = Inr ([], replicate (length data) (Fin 0)))"
proof (intro conjI impI)
  have "detect ppf data l p =
      Inr (fst (rodionov_regimes ppf data l p), snd (rodionov_regimes ppf data l p))"
    by (simp add: detect_def)
  with trace_length[of ppf data l p]
  show "\<exists>shifts trace. detect ppf data l p = Inr (shifts, trace) \<and> length trace = length data"
    by blast
next
  show "detect ppf data l p \<noteq> Inl DegenerateInput"
    by (simp add: detect_def)
next
  assume "np_mean (map Fin (take l data)) = Fin c"
  from centred_series_run[OF assms this, of ppf p]
  show "detect ppf data l p = Inr ([], replicate (length data) (Fin 0))"
    by (simp add: detect_def)
qed

text \<open>
  On the series \<open>7, 7, 7, 7, 7\<close> with \<open>l = 2\<close>: the mean of \<open>7, 7\<close> is 7.
\<close>

theorem constant_series_returns_normally_witness:
  "np_mean (map Fin (take 2 [7, 7, 7, 7, 7])) = Fin 7 \<and>
   detect (const_ppf (- 1)) [7, 7, 7, 7, 7] 2 (1 / 5) =
     Inr ([], replicate (length [7, 7, 7, 7, 7 :: real]) (Fin 0)) \<and>
   detect (const_ppf (- 1)) [7, 7, 7, 7, 7] 2 (1 / 5) \<noteq> Inl DegenerateInput"
proof -
  have c: "\<forall>x \<in> set [7, 7, 7, 7, 7 :: real]. x = 7" by simp
  have m: "np_mean (map Fin (take 2 [7, 7, 7, 7, 7])) = Fin 7"
    by (simp add: np_mean_def np_sum_def numeral_2_eq_2)
  from constant_series_returns_normally[OF c, of "const_ppf (- 1)" 2 "1 / 5"] m
  show ?thesis by blast
qed

subsection \<open>The last index\<close>

text \<open>
  Claim C10. For every input, the last index \<open>n - 1\<close> is never a shift index: its
  entry of the RSI trace stays 0, since a candidate there has an empty range of \<open>k\<close>.
  Every shift index lies between \<open>l + 1\<close> and \<open>n - 2\<close>.
\<close>

theorem last_index_never_confirmed:
  "(data \<noteq> [] \<longrightarrow>
      snd (rodionov_regimes ppf data l p) ! (length data - 1) = Fin 0 \<and>
      length data - 1 \<notin> set (fst (rodionov_regimes ppf data l p))) \<and>
   (\<forall>j \<in> set (fst (rodionov_regimes ppf data l p)). l + 1 \<le> j \<and> j + 2 \<le> length data)"
proof -
  obtain i' where "index_inv (l + 1) data i' (final_state ppf data l p)"
    using index_inv_final by blast
  then show ?thesis
    by (fastforce simp: rodionov_regimes_def Let_def index_inv_def)
qed

text \<open>
  On the series \<open>0, 4, 4, 4, 4, 9\<close> with \<open>l = 2\<close>, the value 9 at the last index 5 is
  out of range, and 5 is not a shift index; 3 is one, and \<open>2 + 1 \<le> 3 \<le> 6 - 2\<close>.
\<close>

theorem last_index_never_confirmed_witness:
  "[0, 4, 4, 4, 4, 9 :: real] \<noteq> [] \<and>
   3 \<in> set (fst (rodionov_regimes (const_ppf (- 1)) [0, 4, 4, 4, 4, 9] 2 (1 / 5))) \<and>
   snd (rodionov_regimes (const_ppf (- 1)) [0, 4, 4, 4, 4, 9] 2 (1 / 5)) !
      (length [0, 4, 4, 4, 4, 9 :: real] - 1) = Fin 0 \<and>
   length [0, 4, 4, 4, 4, 9 :: real] - 1
      \<notin> set (fst (rodionov_regimes (const_ppf (- 1)) [0, 4, 4, 4, 4, 9] 2 (1 / 5))) \<and>
   2 + 1 \<le> (3::nat) \<and> (3::nat) + 2 \<le> length [0, 4, 4, 4, 4, 9 :: real]"
proof -
  have ne: "[0, 4, 4, 4, 4, 9 :: real] \<noteq> []" by simp
  have m: "3 \<in> set (fst (rodionov_regimes (const_ppf (- 1)) [0, 4, 4, 4, 4, 9] 2 (1 / 5)))"
    by (simp add: example_run)
  with ne last_index_never_confirmed[of "[0, 4, 4, 4, 4, 9]" "const_ppf (- 1)" 2 "1 / 5"]
  show ?thesis by blast
qed

end
